theory Spec2Isabelle
  imports Complex_Main
begin

section \<open>Envelopes\<close>

text \<open>
  The \<^verbatim>\<open>Payload interface{}\<close> of an envelope holds whatever \<^verbatim>\<open>encoding/json\<close> decoded or
  what the server put there: a JSON value. An object is kept as its list of members and
  read with \<open>map_of\<close>. Numbers are never inspected by the hub.
\<close>

datatype json = JNull | JBool bool | JNum int | JStr string
  | JArr "json list" | JObj "(string \<times> json) list"

record Message =
  Type :: string
  Room :: string
  Payload :: json

section \<open>Buffered channels\<close>

text \<open>
  \<^verbatim>\<open>Send chan []byte\<close> is a buffered Go channel. The bytes queued are the JSON encoding of
  an envelope (\<^verbatim>\<open>json.Marshal(msg)\<close>); the model queues the envelope. A send on a closed
  channel and a second \<^verbatim>\<open>close\<close> are run-time panics in Go, also inside a \<^verbatim>\<open>select\<close>
  with a \<^verbatim>\<open>default\<close> branch.
\<close>

record chan =
  buf :: "Message list"
  cap :: nat
  closed :: bool

datatype panic = SendOnClosedChannel | CloseOfClosedChannel

definition make_chan :: "nat \<Rightarrow> chan" where
  "make_chan n = \<lparr>buf = [], cap = n, closed = False\<rparr>"

text \<open>\<^verbatim>\<open>select { case ch <- m: default: }\<close>; the flag tells which branch ran.\<close>

definition try_send :: "chan \<Rightarrow> Message \<Rightarrow> panic + (bool \<times> chan)" where
  "try_send ch m =
     (if closed ch then Inl SendOnClosedChannel
      else if length (buf ch) < cap ch then Inr (True, ch\<lparr>buf := buf ch @ [m]\<rparr>)
      else Inr (False, ch))"

definition close_chan :: "chan \<Rightarrow> panic + chan" where
  "close_chan ch = (if closed ch then Inl CloseOfClosedChannel else Inr (ch\<lparr>closed := True\<rparr>))"

section \<open>Clients and the hub\<close>

text \<open>
  A \<^verbatim>\<open>*Client\<close> is an address; \<open>mem\<close> maps each address to the struct it points to (the
  transport \<^verbatim>\<open>Conn\<close>, the back pointer \<^verbatim>\<open>Hub\<close> and the mutex are left out). \<open>fresh\<close> is the
  next address \<^verbatim>\<open>&Client{...}\<close> will return. The Go maps used as sets
  (\<^verbatim>\<open>map[*Client]bool\<close>, \<^verbatim>\<open>map[string]bool\<close>) are lists in iteration order, which Go leaves
  unspecified; \<open>clients\<close> and \<open>rooms\<close> are the two maps of the \<^verbatim>\<open>Hub\<close> struct.
\<close>

type_synonym cid = nat

record Client =
  ID :: string
  UserID :: string
  Send :: chan
  Rooms :: "string list"

record hub =
  clients :: "cid list"
  rooms :: "string \<Rightarrow> cid list option"
  mem :: "cid \<Rightarrow> Client"
  fresh :: cid

definition NewHub :: hub where
  "NewHub = \<lparr>clients = [], rooms = (\<lambda>_. None),
             mem = (\<lambda>_. \<lparr>ID = [], UserID = [], Send = make_chan 0, Rooms = []\<rparr>), fresh = 0\<rparr>"

definition set_Send :: "cid \<Rightarrow> chan \<Rightarrow> hub \<Rightarrow> hub" where
  "set_Send c ch h = h\<lparr>mem := (mem h)(c := (mem h c)\<lparr>Send := ch\<rparr>)\<rparr>"

text \<open>\<^verbatim>\<open>case client := <-h.register\<close> of \<^verbatim>\<open>Hub.Run\<close>.\<close>

definition register :: "cid \<Rightarrow> hub \<Rightarrow> hub" where
  "register c h = h\<lparr>clients := List.insert c (clients h)\<rparr>"

text \<open>\<^verbatim>\<open>delete(h.rooms[room], client)\<close>: deleting from a nil map does nothing.\<close>

definition leave :: "cid \<Rightarrow> hub \<Rightarrow> string \<Rightarrow> hub" where
  "leave c h room =
     (case rooms h room of None \<Rightarrow> h
      | Some cs \<Rightarrow> h\<lparr>rooms := (rooms h)(room \<mapsto> removeAll c cs)\<rparr>)"

text \<open>\<^verbatim>\<open>case client := <-h.unregister\<close> of \<^verbatim>\<open>Hub.Run\<close>.\<close>

definition unregister :: "cid \<Rightarrow> hub \<Rightarrow> panic + hub" where
  "unregister c h =
     (if c \<in> set (clients h) then
        (case close_chan (Send (mem h c)) of
           Inl p \<Rightarrow> Inl p
         | Inr ch \<Rightarrow>
             Inr (foldl (leave c) (set_Send c ch (h\<lparr>clients := removeAll c (clients h)\<rparr>))
                    (Rooms (mem h c))))
      else Inr h)"

text \<open>The body of both \<^verbatim>\<open>for client := range ...\<close> loops of \<^verbatim>\<open>Hub.broadcastMessage\<close>.\<close>

definition deliver :: "Message \<Rightarrow> cid \<Rightarrow> hub \<Rightarrow> panic + hub" where
  "deliver m c h =
     (case try_send (Send (mem h c)) m of
        Inl p \<Rightarrow> Inl p
      | Inr (True, ch) \<Rightarrow> Inr (set_Send c ch h)
      | Inr (False, _) \<Rightarrow>
          (case close_chan (Send (mem h c)) of
             Inl p \<Rightarrow> Inl p
           | Inr ch \<Rightarrow> Inr (set_Send c ch (h\<lparr>clients := removeAll c (clients h)\<rparr>))))"

fun fanout :: "Message \<Rightarrow> cid list \<Rightarrow> hub \<Rightarrow> panic + hub" where
  "fanout m [] h = Inr h"
| "fanout m (c # cs) h = (case deliver m c h of Inl p \<Rightarrow> Inl p | Inr h' \<Rightarrow> fanout m cs h')"

definition broadcastMessage :: "Message \<Rightarrow> hub \<Rightarrow> panic + hub" where
  "broadcastMessage m h =
     (if Room m \<noteq> [] then
        (case rooms h (Room m) of Some cs \<Rightarrow> fanout m cs h | None \<Rightarrow> Inr h)
      else fanout m (clients h) h)"

definition JoinRoom :: "cid \<Rightarrow> string \<Rightarrow> hub \<Rightarrow> hub" where
  "JoinRoom c room h =
     h\<lparr>rooms := (rooms h)(room \<mapsto>
                  List.insert c (case rooms h room of None \<Rightarrow> [] | Some cs \<Rightarrow> cs)),
       mem := (mem h)(c := (mem h c)\<lparr>Rooms := List.insert room (Rooms (mem h c))\<rparr>)\<rparr>"

text \<open>The envelopes \<^verbatim>\<open>BroadcastToConversation\<close> and \<^verbatim>\<open>BroadcastToUser\<close> put on \<^verbatim>\<open>h.broadcast\<close>.\<close>

definition BroadcastToConversation :: "string \<Rightarrow> json \<Rightarrow> Message" where
  "BroadcastToConversation convID payload =
     \<lparr>Type = ''message'', Room = ''conv:'' @ convID, Payload = payload\<rparr>"

definition BroadcastToUser :: "string \<Rightarrow> string \<Rightarrow> json \<Rightarrow> Message" where
  "BroadcastToUser userID msgType payload =
     \<lparr>Type = msgType, Room = ''user:'' @ userID, Payload = payload\<rparr>"

section \<open>Connections\<close>

text \<open>
  \<^verbatim>\<open>HandleConnection\<close> up to \<^verbatim>\<open>hub.register <- client\<close>: a new \<^verbatim>\<open>Client\<close> with an empty
  queue of 256 slots is allocated and handed to the hub loop, which adds it to \<open>clients\<close>.
\<close>

definition accept :: "string \<Rightarrow> string \<Rightarrow> hub \<Rightarrow> hub" where
  "accept remoteAddr userID h =
     register (fresh h)
       (h\<lparr>mem := (mem h)(fresh h :=
              \<lparr>ID = remoteAddr, UserID = userID, Send = make_chan 256, Rooms = []\<rparr>),
          fresh := Suc (fresh h)\<rparr>)"

text \<open>
  \<^verbatim>\<open>HandleConnection\<close>; the flag is whether \<^verbatim>\<open>upgrader.Upgrade\<close> succeeded. The two pumps it
  starts are modelled below.
\<close>

definition HandleConnection :: "bool \<Rightarrow> string \<Rightarrow> string \<Rightarrow> hub \<Rightarrow> hub" where
  "HandleConnection upgraded remoteAddr userID h =
     (if \<not> upgraded then h
      else JoinRoom (fresh h) (''user:'' @ userID) (accept remoteAddr userID h))"

text \<open>
  What reaches the shared state, one atomic step each: the three channels of \<^verbatim>\<open>Hub.Run\<close>
  (\<open>Accept\<close> is a registration together with the allocation before it), \<^verbatim>\<open>JoinRoom\<close>
  under the hub's lock, the reader's own non-blocking \<^verbatim>\<open>c.Send <- pong\<close>, and the writer
  taking one envelope from \<^verbatim>\<open>c.Send\<close>.
\<close>

datatype cmd =
    Accept string string
  | Join cid string
  | Unregister cid
  | Broadcast Message
  | Pong cid
  | Receive cid

definition pong :: Message where
  "pong = \<lparr>Type = ''pong'', Room = [], Payload = JNull\<rparr>"

definition exec :: "cmd \<Rightarrow> hub \<Rightarrow> panic + hub" where
  "exec k h =
     (case k of
        Accept remoteAddr userID \<Rightarrow> Inr (accept remoteAddr userID h)
      | Join c room \<Rightarrow> Inr (JoinRoom c room h)
      | Unregister c \<Rightarrow> unregister c h
      | Broadcast m \<Rightarrow> broadcastMessage m h
      | Pong c \<Rightarrow>
          (case try_send (Send (mem h c)) pong of
             Inl p \<Rightarrow> Inl p
           | Inr (_, ch) \<Rightarrow> Inr (set_Send c ch h))
      | Receive c \<Rightarrow> Inr (set_Send c ((Send (mem h c))\<lparr>buf := tl (buf (Send (mem h c)))\<rparr>) h))"

text \<open>A panic in the hub loop or in a pump ends the process: the run stops there.\<close>

fun run :: "cmd list \<Rightarrow> hub \<Rightarrow> panic + hub" where
  "run [] h = Inr h"
| "run (k # ks) h = (case exec k h of Inl p \<Rightarrow> Inl p | Inr h' \<Rightarrow> run ks h')"

definition presence :: "string \<Rightarrow> string \<Rightarrow> Message" where
  "presence t userID = \<lparr>Type = t, Room = [], Payload = JObj [(''user_id'', JStr userID)]\<rparr>"

text \<open>
  \<^verbatim>\<open>payload["conversation_id"].(string)\<close> with the result of the failed assertion, the empty
  string, and \<^verbatim>\<open>payload["is_typing"]\<close>, nil when the key is missing.
\<close>

definition conversation_id :: "(string \<times> json) list \<Rightarrow> string" where
  "conversation_id payload =
     (case map_of payload ''conversation_id'' of Some (JStr s) \<Rightarrow> s | _ \<Rightarrow> [])"

definition member_or_nil :: "(string \<times> json) list \<Rightarrow> string \<Rightarrow> json" where
  "member_or_nil payload k = (case map_of payload k of Some v \<Rightarrow> v | None \<Rightarrow> JNull)"

text \<open>The two envelopes the reader forwards to a conversation room.\<close>

definition typing_event :: "string \<Rightarrow> string \<Rightarrow> json \<Rightarrow> Message" where
  "typing_event convID uid is_typing =
     \<lparr>Type = ''typing'', Room = ''conv:'' @ convID,
      Payload = JObj [(''conversation_id'', JStr convID), (''user_id'', JStr uid),
                      (''is_typing'', is_typing)]\<rparr>"

definition read_event :: "string \<Rightarrow> string \<Rightarrow> Message" where
  "read_event convID uid =
     \<lparr>Type = ''read'', Room = ''conv:'' @ convID,
      Payload = JObj [(''conversation_id'', JStr convID), (''reader_id'', JStr uid)]\<rparr>"

text \<open>
  The body of the read loop for one frame of the client \<open>c\<close> whose \<^verbatim>\<open>UserID\<close> is \<open>uid\<close>:
  the frame is \<open>None\<close> when \<^verbatim>\<open>json.Unmarshal\<close> returned an error, else the decoded envelope.
  The result is what the frame makes the reader do to the shared state.
\<close>

definition frame_cmds :: "cid \<Rightarrow> string \<Rightarrow> Message option \<Rightarrow> cmd list" where
  "frame_cmds c uid frame =
     (case frame of
        None \<Rightarrow> []
      | Some msg \<Rightarrow>
          if Type msg = ''ping'' then [Pong c]
          else if Type msg = ''join'' then
            (case Payload msg of JStr room \<Rightarrow> [Join c room] | _ \<Rightarrow> [])
          else if Type msg = ''typing'' then
            (case Payload msg of
               JObj payload \<Rightarrow>
                 if conversation_id payload \<noteq> [] then
                   [Broadcast (typing_event (conversation_id payload) uid
                      (member_or_nil payload ''is_typing''))]
                 else []
             | _ \<Rightarrow> [])
          else if Type msg = ''read'' then
            (case Payload msg of
               JObj payload \<Rightarrow>
                 if conversation_id payload \<noteq> [] then
                   [Broadcast (read_event (conversation_id payload) uid)]
                 else []
             | _ \<Rightarrow> [])
          else [])"

text \<open>
  \<^verbatim>\<open>Client.readPump\<close> over what \<^verbatim>\<open>ReadMessage\<close> returns: an error ends the loop and runs the
  deferred clean-up; when the list ends without one the reader is still waiting.
\<close>

datatype read = ReadError | Frame "Message option"

fun readLoop :: "cid \<Rightarrow> string \<Rightarrow> read list \<Rightarrow> cmd list" where
  "readLoop c uid [] = []"
| "readLoop c uid (ReadError # rs) = [Unregister c, Broadcast (presence ''user_offline'' uid)]"
| "readLoop c uid (Frame f # rs) = frame_cmds c uid f @ readLoop c uid rs"

definition readPump :: "cid \<Rightarrow> string \<Rightarrow> read list \<Rightarrow> cmd list" where
  "readPump c uid rs = Broadcast (presence ''user_online'' uid) # readLoop c uid rs"

section \<open>Call signalling\<close>

text \<open>
  A \<^verbatim>\<open>uuid.UUID\<close> is kept as its text; a \<^verbatim>\<open>time.Time\<close> is a number of nanoseconds since the
  Unix epoch.
\<close>

type_synonym uuid = string

type_synonym time = int

text \<open>
  The two columns of \<^verbatim>\<open>models.User\<close> the call handlers read.
\<close>

record User =
  FullName :: string
  AvatarURL :: "string option"

text \<open>
  \<^verbatim>\<open>models.CallLog\<close> without its primary key \<^verbatim>\<open>ID\<close>, which is the key under which the row is
  stored, and without the two preloaded relations.
\<close>

record CallLog =
  CallerID :: uuid
  CalleeID :: uuid
  OrderID :: "uuid option"
  CallType :: string
  Status :: string
  Duration :: int
  ChannelID :: "string option"
  StartedAt :: time
  AnsweredAt :: "time option"
  EndedAt :: "time option"

record Config =
  AgoraAppID :: string
  AgoraAppCertificate :: string

text \<open>
  \<^verbatim>\<open>Response\<close> and its helpers; \<^verbatim>\<open>Meta\<close> is never set by the call handlers.
\<close>

record Response =
  Success :: bool
  Data :: json
  Error :: string

definition SuccessResponse :: "json \<Rightarrow> Response" where
  "SuccessResponse data = \<lparr>Success = True, Data = data, Error = []\<rparr>"

definition ErrorResponse :: "string \<Rightarrow> Response" where
  "ErrorResponse err = \<lparr>Success = False, Data = JNull, Error = err\<rparr>"

text \<open>
  The two tables the call handlers use.
\<close>

record store =
  calls :: "uuid \<Rightarrow> CallLog option"
  users :: "uuid \<Rightarrow> User option"

text \<open>
  What a handler does besides answering: \<^verbatim>\<open>db.Create\<close>, \<^verbatim>\<open>db.Model(&callLog).Updates\<close> with
  the columns of its map, and an envelope put on the hub's broadcast channel. A handler
  returns these in program order, with the HTTP status and body.
\<close>

datatype column = status string | answered_at time | ended_at time | duration int

datatype effect = Create uuid CallLog | Updates uuid "column list" | ToHub Message

fun set_column :: "column \<Rightarrow> CallLog \<Rightarrow> CallLog" where
  "set_column (status s) row = row\<lparr>Status := s\<rparr>"
| "set_column (answered_at t) row = row\<lparr>AnsweredAt := Some t\<rparr>"
| "set_column (ended_at t) row = row\<lparr>EndedAt := Some t\<rparr>"
| "set_column (duration d) row = row\<lparr>Duration := d\<rparr>"

text \<open>
  The table after an effect; an update of a row that does not exist changes nothing.
\<close>

fun perform :: "effect \<Rightarrow> store \<Rightarrow> store" where
  "perform (Create i row) db = db\<lparr>calls := (calls db)(i \<mapsto> row)\<rparr>"
| "perform (Updates i cols) db =
     (case calls db i of None \<Rightarrow> db
      | Some row \<Rightarrow> db\<lparr>calls := (calls db)(i \<mapsto> fold set_column cols row)\<rparr>)"
| "perform (ToHub m) db = db"

definition commit :: "effect list \<times> nat \<times> Response \<Rightarrow> store \<Rightarrow> store" where
  "commit r db = fold perform (fst r) db"


text \<open>
  The collaborators outside the repository: \<^verbatim>\<open>uuid.Parse\<close> and the token builder of the
  Agora library (its error is kept as a message).
\<close>

record env =
  Parse :: "string \<Rightarrow> uuid option"
  BuildTokenWithUid :: "string \<Rightarrow> string \<Rightarrow> string \<Rightarrow> nat \<Rightarrow> nat \<Rightarrow> string + string"

text \<open>
  \<^verbatim>\<open>callID, _ := uuid.Parse(c.Param("id"))\<close>: the nil UUID when the parameter does not parse.
\<close>

definition uuid_Nil :: uuid where
  "uuid_Nil = ''00000000-0000-0000-0000-000000000000''"

definition param_id :: "env \<Rightarrow> string \<Rightarrow> uuid" where
  "param_id e s = (case Parse e s of None \<Rightarrow> uuid_Nil | Some u \<Rightarrow> u)"

text \<open>
  \<^verbatim>\<open>agora.GenerateRTCToken\<close>.
\<close>

definition GenerateRTCToken ::
  "env \<Rightarrow> string \<Rightarrow> string \<Rightarrow> string \<Rightarrow> nat \<Rightarrow> nat \<Rightarrow> string + string" where
  "GenerateRTCToken e appID appCertificate channelName uid expireSeconds =
     (if appID = [] \<or> appCertificate = [] then Inl ''agora app ID and certificate are required''
      else case BuildTokenWithUid e appID appCertificate channelName uid expireSeconds of
             Inl err \<Rightarrow> Inl (''failed to build Agora token: '' @ err)
           | Inr token \<Rightarrow> Inr token)"

text \<open>
  \<^verbatim>\<open>fmt.Sprintf("call_%s_%d", uuid.New().String()[:8], time.Now().Unix())\<close>.
\<close>

fun decimal :: "nat \<Rightarrow> string" where
  "decimal n =
     (if n < 10 then [''0123456789'' ! n]
      else decimal (n div 10) @ [''0123456789'' ! (n mod 10)])"

declare decimal.simps [simp del]

definition Itoa :: "int \<Rightarrow> string" where
  "Itoa i = (if i < 0 then CHR ''-'' # decimal (nat (- i)) else decimal (nat i))"

definition Unix :: "time \<Rightarrow> int" where
  "Unix t = t div 1000000000"

definition channel_name :: "uuid \<Rightarrow> time \<Rightarrow> string" where
  "channel_name u now = ''call_'' @ take 8 u @ ''_'' @ Itoa (Unix now)"

text \<open>
  \<^verbatim>\<open>int(now.Sub(*callLog.AnsweredAt).Seconds())\<close>. \<^verbatim>\<open>Time.Sub\<close> gives nanoseconds and
  saturates at the bounds of \<^verbatim>\<open>int64\<close>.
\<close>

definition Sub :: "time \<Rightarrow> time \<Rightarrow> int" where
  "Sub t u =
     (if 9223372036854775807 < t - u then 9223372036854775807
      else if t - u < - 9223372036854775808 then - 9223372036854775808
      else t - u)"

text \<open>
  The \<^verbatim>\<open>float64\<close> nearest to a rational number, ties to the even significand: the number
  is scaled by powers of two into the range from \<open>2 ^ 52\<close> to \<open>2 ^ 53\<close>, where the
  \<^verbatim>\<open>float64\<close> values are the integers, rounded there and scaled back. 1100 scalings reach
  every exponent of a normal \<^verbatim>\<open>float64\<close>; \<^verbatim>\<open>Seconds\<close> produces no subnormal value and no
  overflow.
\<close>

definition round_even :: "rat \<Rightarrow> int" where
  "round_even x =
     (if x - of_int \<lfloor>x\<rfloor> < 1 / 2 then \<lfloor>x\<rfloor>
      else if 1 / 2 < x - of_int \<lfloor>x\<rfloor> then \<lfloor>x\<rfloor> + 1
      else if even \<lfloor>x\<rfloor> then \<lfloor>x\<rfloor> else \<lfloor>x\<rfloor> + 1)"

fun round_f64 :: "nat \<Rightarrow> rat \<Rightarrow> rat" where
  "round_f64 0 x = of_int (round_even x)"
| "round_f64 (Suc n) x =
     (if \<bar>x\<bar> < 2 ^ 52 then round_f64 n (2 * x) / 2
      else if 2 ^ 53 \<le> \<bar>x\<bar> then 2 * round_f64 n (x / 2)
      else of_int (round_even x))"

definition float64 :: "rat \<Rightarrow> rat" where
  "float64 x = round_f64 1100 x"

text \<open>
  \<^verbatim>\<open>Duration.Seconds\<close> is \<^verbatim>\<open>float64(sec) + float64(nsec)/1e9\<close> with \<^verbatim>\<open>sec := d / Second\<close> and
  \<^verbatim>\<open>nsec := d % Second\<close>, both truncating toward zero. The two conversions and the constant
  are exact; the quotient and the sum are rounded.
\<close>

definition tdiv :: "int \<Rightarrow> int \<Rightarrow> int" where
  "tdiv a b = (if 0 \<le> a then a div b else - ((- a) div b))"

definition tmod :: "int \<Rightarrow> int \<Rightarrow> int" where
  "tmod a b = (if 0 \<le> a then a mod b else - ((- a) mod b))"

definition Seconds :: "int \<Rightarrow> rat" where
  "Seconds d =
     float64 (of_int (tdiv d 1000000000) + float64 (of_int (tmod d 1000000000) / 1000000000))"

text \<open>The conversion of a \<^verbatim>\<open>float64\<close> to \<^verbatim>\<open>int\<close> discards the fraction.\<close>

definition to_int :: "rat \<Rightarrow> int" where
  "to_int x = (if 0 \<le> x then \<lfloor>x\<rfloor> else - \<lfloor>- x\<rfloor>)"

definition whole_seconds :: "int \<Rightarrow> int" where
  "whole_seconds d = to_int (Seconds d)"

definition call_duration :: "time \<Rightarrow> time option \<Rightarrow> int" where
  "call_duration now answered =
     (case answered of None \<Rightarrow> 0 | Some a \<Rightarrow> whole_seconds (Sub now a))"

text \<open>
  \<^verbatim>\<open>db.First\<close> with a condition on the primary key and on other columns; for a user, the
  error is ignored and the zero value stays in place when there is no row.
\<close>

definition First_call :: "store \<Rightarrow> uuid \<Rightarrow> (CallLog \<Rightarrow> bool) \<Rightarrow> CallLog option" where
  "First_call db i P =
     (case calls db i of None \<Rightarrow> None | Some row \<Rightarrow> if P row then Some row else None)"

definition First_user :: "store \<Rightarrow> uuid \<Rightarrow> User" where
  "First_user db i =
     (case users db i of None \<Rightarrow> \<lparr>FullName = [], AvatarURL = None\<rparr> | Some u \<Rightarrow> u)"

definition avatar :: "User \<Rightarrow> json" where
  "avatar u = (case AvatarURL u of None \<Rightarrow> JNull | Some a \<Rightarrow> JStr a)"

text \<open>
  \<^verbatim>\<open>CallHandler.InitiateCall\<close>. The arguments after the tables are the authenticated user,
  the body (\<open>None\<close> when it is not JSON of the expected shape, else \<^verbatim>\<open>receiver_id\<close> and
  \<^verbatim>\<open>call_type\<close>), the two fresh UUIDs, the clock, and whether \<^verbatim>\<open>db.Create\<close> succeeded.
\<close>

definition InitiateCall ::
  "env \<Rightarrow> Config \<Rightarrow> store \<Rightarrow> uuid \<Rightarrow> (string \<times> string) option \<Rightarrow> uuid \<Rightarrow> uuid \<Rightarrow> time \<Rightarrow> bool
   \<Rightarrow> effect list \<times> nat \<times> Response" where
  "InitiateCall e cfg db callerID body chanUUID newID now created =
     (case body of
        None \<Rightarrow> ([], 400, ErrorResponse ''receiver_id and call_type are required'')
      | Some (receiver_id, call_type) \<Rightarrow>
          if receiver_id = [] \<or> call_type = [] then
            ([], 400, ErrorResponse ''receiver_id and call_type are required'')
          else
            (case Parse e receiver_id of
               None \<Rightarrow> ([], 400, ErrorResponse ''invalid receiver_id'')
             | Some receiverID \<Rightarrow>
                 if call_type \<noteq> ''audio'' \<and> call_type \<noteq> ''video'' then
                   ([], 400, ErrorResponse (''call_type must be '' @ [CHR 0x27] @ ''audio''
                      @ [CHR 0x27] @ '' or '' @ [CHR 0x27] @ ''video'' @ [CHR 0x27]))
                 else
                   (case GenerateRTCToken e (AgoraAppID cfg) (AgoraAppCertificate cfg)
                           (channel_name chanUUID now) 1 3600 of
                      Inl err \<Rightarrow> ([], 500, ErrorResponse ''failed to generate call token'')
                    | Inr token \<Rightarrow>
                        if created then
                          ([Create newID
                              \<lparr>CallerID = callerID, CalleeID = receiverID, OrderID = None,
                               CallType = call_type, Status = ''ringing'', Duration = 0,
                               ChannelID = Some (channel_name chanUUID now), StartedAt = now,
                               AnsweredAt = None, EndedAt = None\<rparr>,
                            ToHub (BroadcastToUser receiverID ''incoming_call''
                              (JObj [(''call_id'', JStr newID),
                                     (''caller_id'', JStr callerID),
                                     (''caller_name'', JStr (FullName (First_user db callerID))),
                                     (''caller_avatar'', avatar (First_user db callerID)),
                                     (''call_type'', JStr call_type),
                                     (''channel_name'', JStr (channel_name chanUUID now))]))],
                           200,
                           SuccessResponse
                             (JObj [(''call_id'', JStr newID),
                                    (''channel_name'', JStr (channel_name chanUUID now)),
                                    (''token'', JStr token), (''uid'', JNum 1),
                                    (''app_id'', JStr (AgoraAppID cfg))]))
                        else ([], 500, ErrorResponse ''failed to create call''))))"

text \<open>
  \<^verbatim>\<open>CallHandler.AnswerCall\<close>; a row without a channel makes the handler dereference nil,
  which gin's recovery turns into a 500.
\<close>

definition AnswerCall ::
  "env \<Rightarrow> Config \<Rightarrow> store \<Rightarrow> string \<Rightarrow> uuid \<Rightarrow> time \<Rightarrow> effect list \<times> nat \<times> Response" where
  "AnswerCall e cfg db idParam userID now =
     (case First_call db (param_id e idParam) (\<lambda>row. CalleeID row = userID) of
        None \<Rightarrow> ([], 404, ErrorResponse ''call not found'')
      | Some callLog \<Rightarrow>
          if Status callLog \<noteq> ''ringing'' then
            ([], 400, ErrorResponse ''call is no longer ringing'')
          else
            (case ChannelID callLog of
               None \<Rightarrow> ([], 500, ErrorResponse [])
             | Some channel \<Rightarrow>
                 (case GenerateRTCToken e (AgoraAppID cfg) (AgoraAppCertificate cfg)
                         channel 2 3600 of
                    Inl err \<Rightarrow> ([], 500, ErrorResponse ''failed to generate token'')
                  | Inr token \<Rightarrow>
                      ([Updates (param_id e idParam) [status ''answered'', answered_at now],
                        ToHub (BroadcastToUser (CallerID callLog) ''call_answered''
                          (JObj [(''call_id'', JStr (param_id e idParam))]))],
                       200,
                       SuccessResponse
                         (JObj [(''call_id'', JStr (param_id e idParam)),
                                (''channel_name'', JStr channel),
                                (''token'', JStr token), (''uid'', JNum 2),
                                (''app_id'', JStr (AgoraAppID cfg))])))))"

text \<open>
  \<^verbatim>\<open>CallHandler.RejectCall\<close>.
\<close>

definition RejectCall ::
  "env \<Rightarrow> store \<Rightarrow> string \<Rightarrow> uuid \<Rightarrow> time \<Rightarrow> effect list \<times> nat \<times> Response" where
  "RejectCall e db idParam userID now =
     (case First_call db (param_id e idParam) (\<lambda>row. CalleeID row = userID) of
        None \<Rightarrow> ([], 404, ErrorResponse ''call not found'')
      | Some callLog \<Rightarrow>
          ([Updates (param_id e idParam) [status ''declined'', ended_at now],
            ToHub (BroadcastToUser (CallerID callLog) ''call_rejected''
              (JObj [(''call_id'', JStr (param_id e idParam))]))],
           200, SuccessResponse (JObj [(''message'', JStr ''Call rejected'')])))"

text \<open>
  \<^verbatim>\<open>CallHandler.EndCall\<close>.
\<close>

definition EndCall ::
  "env \<Rightarrow> store \<Rightarrow> string \<Rightarrow> uuid \<Rightarrow> time \<Rightarrow> effect list \<times> nat \<times> Response" where
  "EndCall e db idParam userID now =
     (case First_call db (param_id e idParam)
             (\<lambda>row. CallerID row = userID \<or> CalleeID row = userID) of
        None \<Rightarrow> ([], 404, ErrorResponse ''call not found'')
      | Some callLog \<Rightarrow>
          ([Updates (param_id e idParam)
              [status ''ended'', ended_at now,
               duration (call_duration now (AnsweredAt callLog))],
            ToHub (BroadcastToUser
              (if CallerID callLog = userID then CalleeID callLog else CallerID callLog)
              ''call_ended''
              (JObj [(''call_id'', JStr (param_id e idParam)),
                     (''duration'', JNum (call_duration now (AnsweredAt callLog)))]))],
           200,
           SuccessResponse
             (JObj [(''message'', JStr ''Call ended''),
                    (''duration'', JNum (call_duration now (AnsweredAt callLog)))])))"

section \<open>Invariant, observations and example states\<close>

text \<open>
  What the hub loop maintains: no client is registered twice, and a registered client has
  been allocated and its queue is open.
\<close>

definition hub_inv :: "hub \<Rightarrow> bool" where
  "hub_inv h \<longleftrightarrow> distinct (clients h) \<and>
     (\<forall>c\<in>set (clients h). c < fresh h \<and> \<not> closed (Send (mem h c)))"

text \<open>What can be observed of a run: nothing after a panic, else the field asked for.\<close>

definition registered :: "panic + hub \<Rightarrow> cid list option" where
  "registered r = (case r of Inl p \<Rightarrow> None | Inr h \<Rightarrow> Some (clients h))"

definition members :: "string \<Rightarrow> panic + hub \<Rightarrow> cid list option" where
  "members room r = (case r of Inl p \<Rightarrow> None | Inr h \<Rightarrow> rooms h room)"

definition queued :: "cid \<Rightarrow> panic + hub \<Rightarrow> Message list option" where
  "queued c r = (case r of Inl p \<Rightarrow> None | Inr h \<Rightarrow> Some (buf (Send (mem h c))))"

text \<open>
  A slow consumer: one connection of user \<open>u1\<close> whose writer takes nothing from the queue while
  envelopes addressed to the user's room keep arriving.
\<close>

definition ring :: Message where
  "ring = BroadcastToUser ''u1'' ''incoming_call'' JNull"

definition one_client :: hub where
  "one_client = HandleConnection True ''10.0.0.1:5000'' ''u1'' NewHub"

definition stalled :: hub where
  "stalled = set_Send 0 \<lparr>buf = replicate 256 ring, cap = 256, closed = False\<rparr> one_client"

text \<open>The envelopes of one type that a list of steps puts on \<^verbatim>\<open>h.broadcast\<close>.\<close>

definition broadcasts_of :: "string \<Rightarrow> cmd list \<Rightarrow> Message list" where
  "broadcasts_of t ks =
     concat (map (\<lambda>k. case k of Broadcast m \<Rightarrow> if Type m = t then [m] else [] | _ \<Rightarrow> []) ks)"

text \<open>
  Two connections, of users \<open>u1\<close> and \<open>u2\<close>, and two frames a client can send: a typing
  indicator for conversation \<open>c1\<close> and a request to join the room \<open>conversation:c1\<close>.
\<close>

definition two_clients :: hub where
  "two_clients = HandleConnection True ''10.0.0.2:5000'' ''u2'' one_client"

definition typing_c1 :: Message where
  "typing_c1 = \<lparr>Type = ''typing'', Room = [],
                 Payload = JObj [(''conversation_id'', JStr ''c1''), (''is_typing'', JBool True)]\<rparr>"

definition join_conversation_c1 :: Message where
  "join_conversation_c1 = \<lparr>Type = ''join'', Room = [], Payload = JStr ''conversation:c1''\<rparr>"

text \<open>
  Both connections have joined the room \<open>conv:c1\<close>.
\<close>

definition in_conv_c1 :: hub where
  "in_conv_c1 = JoinRoom 1 ''conv:c1'' (JoinRoom 0 ''conv:c1'' two_clients)"

section \<open>Example calls\<close>

text \<open>
  A call between two users: Alice rings Bob at second 0; then either Bob answers at second
  5 and Alice hangs up at second 65, or Bob declines at second 3.
\<close>

definition demo_env :: env where
  "demo_env = \<lparr>Parse = Some, BuildTokenWithUid = (\<lambda>appID cert channel uid expire. Inr (''token:'' @ channel))\<rparr>"

definition demo_cfg :: Config where
  "demo_cfg = \<lparr>AgoraAppID = ''app'', AgoraAppCertificate = ''cert''\<rparr>"

definition seconds :: "int \<Rightarrow> time" where
  "seconds n = n * 1000000000"

definition no_calls :: store where
  "no_calls = \<lparr>calls = (\<lambda>_. None),
      users = [''alice'' \<mapsto> \<lparr>FullName = ''Alice'', AvatarURL = None\<rparr>,
               ''bob'' \<mapsto> \<lparr>FullName = ''Bob'', AvatarURL = None\<rparr>]\<rparr>"

definition ringing_call :: store where
  "ringing_call = commit (InitiateCall demo_env demo_cfg no_calls ''alice''
      (Some (''bob'', ''audio'')) ''0a1b2c3d-0000'' ''call-1'' (seconds 0) True) no_calls"

definition answered_call :: store where
  "answered_call = commit (AnswerCall demo_env demo_cfg ringing_call ''call-1'' ''bob'' (seconds 5))
      ringing_call"

definition ended_call :: store where
  "ended_call = commit (EndCall demo_env answered_call ''call-1'' ''alice'' (seconds 65)) answered_call"

definition declined_call :: store where
  "declined_call = commit (RejectCall demo_env ringing_call ''call-1'' ''bob'' (seconds 3)) ringing_call"

text \<open>
  Status, the two later timestamps and the duration of a stored call.
\<close>

definition row_state :: "store \<Rightarrow> uuid \<Rightarrow> (string \<times> time option \<times> time option \<times> int) option" where
  "row_state db i =
     map_option (\<lambda>row. (Status row, AnsweredAt row, EndedAt row, Duration row)) (calls db i)"

text \<open>
  The numbers a \<^verbatim>\<open>float64\<close> can hold, the exponent range apart, and what it means for one of
  them to be nearest to a rational number.
\<close>

definition representable :: "rat \<Rightarrow> bool" where
  "representable r \<longleftrightarrow> (\<exists>(m::int) (a::nat) (b::nat). \<bar>m\<bar> < 2 ^ 53 \<and> r = of_int m * 2 ^ a / 2 ^ b)"

definition nearest :: "rat \<Rightarrow> rat \<Rightarrow> bool" where
  "nearest y x \<longleftrightarrow> representable y \<and> (\<forall>r. representable r \<longrightarrow> \<bar>y - x\<bar> \<le> \<bar>r - x\<bar>)"

section \<open>Properties of the hub\<close>

lemma deliver_closed: "closed (Send (mem h c)) \<Longrightarrow> deliver m c h = Inl SendOnClosedChannel"
  by (simp add: deliver_def try_send_def)

lemma deliver_room:
  "\<not> closed (Send (mem h c)) \<Longrightarrow> length (buf (Send (mem h c))) < cap (Send (mem h c)) \<Longrightarrow>
   deliver m c h = Inr (set_Send c ((Send (mem h c))\<lparr>buf := buf (Send (mem h c)) @ [m]\<rparr>) h)"
  by (simp add: deliver_def try_send_def)

lemma deliver_full:
  "\<not> closed (Send (mem h c)) \<Longrightarrow> \<not> length (buf (Send (mem h c))) < cap (Send (mem h c)) \<Longrightarrow>
   deliver m c h = Inr (set_Send c ((Send (mem h c))\<lparr>closed := True\<rparr>)
                          (h\<lparr>clients := removeAll c (clients h)\<rparr>))"
  by (simp add: deliver_def try_send_def close_chan_def)

lemma deliver_no_double_close: "deliver m c h \<noteq> Inl CloseOfClosedChannel"
  by (cases "closed (Send (mem h c))"; cases "length (buf (Send (mem h c))) < cap (Send (mem h c))")
     (simp_all add: deliver_closed deliver_room deliver_full)

lemma deliver_inv: "hub_inv h \<Longrightarrow> deliver m c h = Inr h' \<Longrightarrow> hub_inv h'"
  by (cases "closed (Send (mem h c))"; cases "length (buf (Send (mem h c))) < cap (Send (mem h c))")
     (auto simp: deliver_closed deliver_room deliver_full hub_inv_def set_Send_def distinct_removeAll
        split: if_splits)

lemma fanout_no_double_close: "fanout m cs h \<noteq> Inl CloseOfClosedChannel"
  by (induction cs arbitrary: h) (auto simp: deliver_no_double_close split: sum.splits)

lemma fanout_inv: "hub_inv h \<Longrightarrow> fanout m cs h = Inr h' \<Longrightarrow> hub_inv h'"
  by (induction cs arbitrary: h) (auto dest: deliver_inv split: sum.splits)

lemma foldl_leave_fields:
  "clients (foldl (leave c) h rs) = clients h \<and> mem (foldl (leave c) h rs) = mem h
   \<and> fresh (foldl (leave c) h rs) = fresh h"
  by (induction rs arbitrary: h) (auto simp: leave_def split: option.splits)

lemma unregister_absent: "c \<notin> set (clients h) \<Longrightarrow> unregister c h = Inr h"
  by (simp add: unregister_def)

lemma unregister_removes: "unregister c h = Inr h' \<Longrightarrow> c \<notin> set (clients h')"
  by (auto simp: unregister_def foldl_leave_fields set_Send_def split: if_splits sum.splits)

lemma unregister_inv: "hub_inv h \<Longrightarrow> unregister c h = Inr h' \<Longrightarrow> hub_inv h'"
  by (auto simp: unregister_def hub_inv_def foldl_leave_fields set_Send_def close_chan_def
        distinct_removeAll split: if_splits)

lemma unregister_no_double_close: "hub_inv h \<Longrightarrow> unregister c h \<noteq> Inl CloseOfClosedChannel"
  by (auto simp: unregister_def hub_inv_def close_chan_def)

lemma accept_inv: "hub_inv h \<Longrightarrow> hub_inv (accept a u h)"
  by (auto simp: accept_def register_def hub_inv_def make_chan_def less_Suc_eq)

lemma JoinRoom_inv: "hub_inv h \<Longrightarrow> hub_inv (JoinRoom c r h)"
  by (auto simp: JoinRoom_def hub_inv_def)

lemma Pong_inv:
  "hub_inv h \<Longrightarrow> try_send (Send (mem h c)) m = Inr (b, ch) \<Longrightarrow> hub_inv (set_Send c ch h)"
  by (auto simp: try_send_def hub_inv_def set_Send_def split: if_splits)

lemma Receive_inv:
  "hub_inv h \<Longrightarrow> hub_inv (set_Send c ((Send (mem h c))\<lparr>buf := tl (buf (Send (mem h c)))\<rparr>) h)"
  by (auto simp: hub_inv_def set_Send_def)

lemma exec_inv: "hub_inv h \<Longrightarrow> exec k h = Inr h' \<Longrightarrow> hub_inv h'"
proof (cases k)
  case (Broadcast m)
  assume "hub_inv h" "exec k h = Inr h'"
  then show ?thesis using Broadcast
    by (auto simp: exec_def broadcastMessage_def dest: fanout_inv split: if_splits option.splits)
next
  case (Pong c)
  assume "hub_inv h" "exec k h = Inr h'"
  then show ?thesis using Pong
    by (auto simp: exec_def dest: Pong_inv split: sum.splits prod.splits)
qed (auto simp: exec_def accept_inv JoinRoom_inv Receive_inv dest: unregister_inv)

lemma exec_no_double_close: "hub_inv h \<Longrightarrow> exec k h \<noteq> Inl CloseOfClosedChannel"
  by (cases k)
     (auto simp: exec_def unregister_no_double_close broadcastMessage_def fanout_no_double_close
        try_send_def split: option.splits sum.splits prod.splits if_splits)

lemma run_no_double_close: "hub_inv h \<Longrightarrow> run ks h \<noteq> Inl CloseOfClosedChannel"
  by (induction ks arbitrary: h) (auto simp: exec_no_double_close dest: exec_inv split: sum.splits)

lemma run_inv: "hub_inv h \<Longrightarrow> run ks h = Inr h' \<Longrightarrow> hub_inv h'"
  by (induction ks arbitrary: h) (auto dest: exec_inv split: sum.splits)

lemma NewHub_inv: "hub_inv NewHub"
  by (simp add: hub_inv_def NewHub_def)

lemma run_append: "run (ks @ ls) h = (case run ks h of Inl p \<Rightarrow> Inl p | Inr h' \<Rightarrow> run ls h')"
  by (induction ks arbitrary: h) (auto split: sum.splits)

lemma fill_queue:
  "Room m = r \<Longrightarrow> r \<noteq> [] \<Longrightarrow> rooms h r = Some [c] \<Longrightarrow> \<not> closed (Send (mem h c)) \<Longrightarrow>
   length (buf (Send (mem h c))) + n \<le> cap (Send (mem h c)) \<Longrightarrow>
   run (replicate n (Broadcast m)) h =
     Inr (set_Send c ((Send (mem h c))\<lparr>buf := buf (Send (mem h c)) @ replicate n m\<rparr>) h)"
proof (induction n arbitrary: h)
  case 0
  then show ?case by (simp add: set_Send_def)
next
  case (Suc n)
  let ?h1 = "set_Send c ((Send (mem h c))\<lparr>buf := buf (Send (mem h c)) @ [m]\<rparr>) h"
  have e: "exec (Broadcast m) h = Inr ?h1"
    using Suc.prems by (simp add: exec_def broadcastMessage_def deliver_room)
  have "run (replicate n (Broadcast m)) ?h1 =
     Inr (set_Send c ((Send (mem ?h1 c))\<lparr>buf := buf (Send (mem ?h1 c)) @ replicate n m\<rparr>) ?h1)"
    by (rule Suc.IH) (use Suc.prems in \<open>simp_all add: set_Send_def\<close>)
  then show ?case using e by (simp add: set_Send_def)
qed

lemma one_client_fields:
  "clients one_client = [0]" "rooms one_client ''user:u1'' = Some [0]"
  "Send (mem one_client 0) = make_chan 256" "Rooms (mem one_client 0) = [''user:u1'']"
  by (simp_all add: one_client_def HandleConnection_def JoinRoom_def accept_def register_def
        NewHub_def)

lemma ring_room: "Room ring = ''user:u1''"
  by (simp add: ring_def BroadcastToUser_def)

lemma stalled_reached: "run (replicate 256 (Broadcast ring)) one_client = Inr stalled"
proof -
  have "run (replicate 256 (Broadcast ring)) one_client =
     Inr (set_Send 0 ((Send (mem one_client 0))\<lparr>buf := buf (Send (mem one_client 0)) @ replicate 256 ring\<rparr>) one_client)"
    by (rule fill_queue[where r = "''user:u1''"])
       (simp_all add: ring_room one_client_fields make_chan_def)
  then show ?thesis by (simp add: stalled_def one_client_fields make_chan_def)
qed

lemma stalled_fields:
  "clients stalled = [0]" "rooms stalled ''user:u1'' = Some [0]"
  "Send (mem stalled 0) = \<lparr>buf = replicate 256 ring, cap = 256, closed = False\<rparr>"
  "Rooms (mem stalled 0) = [''user:u1'']"
  by (simp_all add: stalled_def set_Send_def one_client_fields)

lemma stalled_drop:
  "broadcastMessage ring stalled =
     Inr (set_Send 0 \<lparr>buf = replicate 256 ring, cap = 256, closed = True\<rparr>
            (stalled\<lparr>clients := []\<rparr>))"
  by (simp add: broadcastMessage_def ring_room stalled_fields deliver_full)

lemma replicate_Suc_numeral: "replicate (Suc n) x = replicate n x @ [x]"
  by (simp add: replicate_append_same)

lemma dropped_reached:
  "run (replicate 257 (Broadcast ring)) one_client =
     Inr (set_Send 0 \<lparr>buf = replicate 256 ring, cap = 256, closed = True\<rparr>
            (stalled\<lparr>clients := []\<rparr>))"
proof -
  have "(257::nat) = Suc 256" by simp
  then have "replicate 257 (Broadcast ring) = replicate 256 (Broadcast ring) @ [Broadcast ring]"
    by (simp only: replicate_Suc_numeral)
  then show ?thesis
    by (simp add: run_append stalled_reached exec_def stalled_drop)
qed

lemma stalled_fresh: "fresh stalled = 1"
  by (simp add: stalled_def set_Send_def one_client_def HandleConnection_def JoinRoom_def
        accept_def register_def NewHub_def)

text \<open>
  Claim C1 says that after any sequence of hub operations the members of a user's room are
  exactly that user's registered connections, a connection dropped for a full queue having
  left every room. The code at the failing input: one connection of \<open>u1\<close>, 257 envelopes
  to \<open>user:u1\<close> and a writer that never runs. The 257th finds the queue full; the
  connection leaves \<open>clients\<close> and stays in the room.
\<close>

theorem C1_force_drop_leaves_room_entry:
  "registered (run (replicate 257 (Broadcast ring)) one_client) = Some []
   \<and> members ''user:u1'' (run (replicate 257 (Broadcast ring)) one_client) = Some [0]"
  by (simp add: dropped_reached registered_def members_def set_Send_def stalled_fields)

text \<open>
  Claim C4 says that every fan-out drops a member whose queue is full and goes on with the
  other members. The code at the failing input: the envelope after the one that dropped the
  slow consumer is fanned out to the same room, which still lists the dropped connection;
  the send on its closed queue panics and ends the hub loop. It does so too when the user
  has reconnected in between and the room holds a second, responsive connection.
\<close>

theorem C4_fanout_after_drop_panics:
  "run (replicate 257 (Broadcast ring) @ [Broadcast ring]) one_client = Inl SendOnClosedChannel
   \<and> run (replicate 257 (Broadcast ring)
           @ [Accept ''10.0.0.1:5001'' ''u1'', Join 1 ''user:u1'', Broadcast ring]) one_client
       = Inl SendOnClosedChannel"
  by (simp add: run_append dropped_reached exec_def broadcastMessage_def ring_room set_Send_def
        stalled_fields stalled_fresh deliver_closed deliver_room accept_def register_def
        JoinRoom_def make_chan_def)

lemma deliver_clients_subset: "deliver m c h = Inr h' \<Longrightarrow> set (clients h') \<subseteq> set (clients h)"
  by (auto simp: deliver_def try_send_def close_chan_def set_Send_def split: if_splits)

lemma fanout_clients_subset: "fanout m cs h = Inr h' \<Longrightarrow> set (clients h') \<subseteq> set (clients h)"
  by (induction cs arbitrary: h) (auto dest!: deliver_clients_subset split: sum.splits)

lemma deliver_other: "deliver m d h = Inr h' \<Longrightarrow> c \<noteq> d \<Longrightarrow> mem h' c = mem h c"
  by (auto simp: deliver_def try_send_def close_chan_def set_Send_def split: if_splits)

lemma deliver_full_drops:
  "deliver m c h = Inr h' \<Longrightarrow> \<not> length (buf (Send (mem h c))) < cap (Send (mem h c)) \<Longrightarrow>
   c \<notin> set (clients h')"
  by (auto simp: deliver_def try_send_def close_chan_def set_Send_def split: if_splits)

lemma fanout_full_drops:
  "fanout m cs h = Inr h' \<Longrightarrow> c \<in> set cs \<Longrightarrow>
   \<not> length (buf (Send (mem h c))) < cap (Send (mem h c)) \<Longrightarrow> c \<notin> set (clients h')"
proof (induction cs arbitrary: h)
  case Nil
  then show ?case by simp
next
  case (Cons d cs)
  from Cons.prems(1) obtain h1 where d: "deliver m d h = Inr h1" and f: "fanout m cs h1 = Inr h'"
    by (auto split: sum.splits)
  show ?case
  proof (cases "d = c")
    case True
    with d Cons.prems(3) have "c \<notin> set (clients h1)" by (auto dest: deliver_full_drops)
    with fanout_clients_subset[OF f] show ?thesis by auto
  next
    case False
    with Cons.prems(2) have "c \<in> set cs" by simp
    moreover have "mem h1 c = mem h c" using d False by (auto dest: deliver_other)
    ultimately show ?thesis using Cons.IH[OF f] Cons.prems(3) by simp
  qed
qed

text \<open>
  Claim C9: a deregistration command for a connection that is not in the client set does
  nothing. That is the case after a first deregistration and after a fan-out has dropped
  the connection for a full queue, and in no run of the hub is a queue closed twice.
\<close>

theorem C9_duplicate_unregister_is_noop:
  "(c \<notin> set (clients h) \<longrightarrow> unregister c h = Inr h)
   \<and> (unregister c g = Inr g' \<longrightarrow> unregister c g' = Inr g')
   \<and> (broadcastMessage m f = Inr f' \<and> Room m \<noteq> [] \<and> rooms f (Room m) = Some cs \<and> c \<in> set cs
        \<and> \<not> length (buf (Send (mem f c))) < cap (Send (mem f c))
      \<longrightarrow> unregister c f' = Inr f')
   \<and> run ks NewHub \<noteq> Inl CloseOfClosedChannel"
proof (intro conjI impI)
  show "unregister c h = Inr h" if "c \<notin> set (clients h)"
    using that by (rule unregister_absent)
  show "unregister c g' = Inr g'" if "unregister c g = Inr g'"
    using that by (intro unregister_absent unregister_removes)
  show "unregister c f' = Inr f'"
    if "broadcastMessage m f = Inr f' \<and> Room m \<noteq> [] \<and> rooms f (Room m) = Some cs \<and> c \<in> set cs
        \<and> \<not> length (buf (Send (mem f c))) < cap (Send (mem f c))"
  proof -
    from that have "fanout m cs f = Inr f'" by (auto simp: broadcastMessage_def)
    with that have "c \<notin> set (clients f')" by (blast dest: fanout_full_drops)
    then show ?thesis by (rule unregister_absent)
  qed
  show "run ks NewHub \<noteq> Inl CloseOfClosedChannel"
    by (rule run_no_double_close[OF NewHub_inv])
qed

theorem C9_duplicate_unregister_witness:
  "unregister 0 NewHub = Inr NewHub
   \<and> unregister 0 (projr (unregister 0 one_client)) = Inr (projr (unregister 0 one_client))
   \<and> unregister 0 (projr (broadcastMessage ring stalled)) = Inr (projr (broadcastMessage ring stalled))
   \<and> run [Accept ''10.0.0.1:5000'' ''u1'', Unregister 0, Unregister 0] NewHub \<noteq> Inl CloseOfClosedChannel"
  using C9_duplicate_unregister_is_noop[of 0 NewHub one_client "projr (unregister 0 one_client)"
      ring stalled "projr (broadcastMessage ring stalled)" "[0]"
      "[Accept ''10.0.0.1:5000'' ''u1'', Unregister 0, Unregister 0]"]
  by (simp add: NewHub_def unregister_def one_client_fields close_chan_def make_chan_def
        stalled_drop ring_room stalled_fields)

text \<open>
  A fan-out over members whose queues are all open returns: each member with a free slot
  has the envelope queued, each member with a full queue has it closed and is taken out of
  \<open>clients\<close>, and nothing else changes. The rooms are left as they were.
\<close>

lemma fanout_open:
  "distinct cs \<Longrightarrow> \<forall>d\<in>set cs. \<not> closed (Send (mem h d)) \<Longrightarrow>
   \<exists>h'. fanout m cs h = Inr h' \<and> rooms h' = rooms h \<and> fresh h' = fresh h
      \<and> (\<forall>d. d \<notin> set cs \<longrightarrow> mem h' d = mem h d)
      \<and> (\<forall>d\<in>set cs. mem h' d = (mem h d)\<lparr>Send :=
            (if length (buf (Send (mem h d))) < cap (Send (mem h d))
             then (Send (mem h d))\<lparr>buf := buf (Send (mem h d)) @ [m]\<rparr>
             else (Send (mem h d))\<lparr>closed := True\<rparr>)\<rparr>)
      \<and> clients h' = filter (\<lambda>d. \<not> (d \<in> set cs \<and> \<not> length (buf (Send (mem h d))) < cap (Send (mem h d)))) (clients h)"
proof (induction cs arbitrary: h)
  case Nil
  then show ?case by simp
next
  case (Cons c cs)
  let ?ch = "Send (mem h c)"
  have op: "\<not> closed ?ch" using Cons.prems by simp
  obtain h1 where h1: "deliver m c h = Inr h1"
    and r1: "rooms h1 = rooms h" and f1: "fresh h1 = fresh h"
    and m1: "\<forall>d. d \<noteq> c \<longrightarrow> mem h1 d = mem h d"
    and mc: "mem h1 c = (mem h c)\<lparr>Send := (if length (buf ?ch) < cap ?ch then ?ch\<lparr>buf := buf ?ch @ [m]\<rparr> else ?ch\<lparr>closed := True\<rparr>)\<rparr>"
    and c1: "clients h1 = filter (\<lambda>d. \<not> (d = c \<and> \<not> length (buf ?ch) < cap ?ch)) (clients h)"
  proof (cases "length (buf ?ch) < cap ?ch")
    case True
    show ?thesis
      by (rule that[of "set_Send c (?ch\<lparr>buf := buf ?ch @ [m]\<rparr>) h"])
         (use True op in \<open>simp_all add: deliver_room set_Send_def\<close>)
  next
    case False
    show ?thesis
      by (rule that[of "set_Send c (?ch\<lparr>closed := True\<rparr>) (h\<lparr>clients := removeAll c (clients h)\<rparr>)"])
         (use False op in \<open>simp_all add: deliver_full set_Send_def removeAll_filter_not_eq\<close>, metis)
  qed
  have cn: "c \<notin> set cs" and dcs: "distinct cs" using Cons.prems by simp_all
  have "\<forall>d\<in>set cs. \<not> closed (Send (mem h1 d))"
    using Cons.prems cn m1 by auto
  from Cons.IH[OF dcs this] obtain h' where
    h': "fanout m cs h1 = Inr h'" and r': "rooms h' = rooms h1" and f': "fresh h' = fresh h1"
    and mo: "\<forall>d. d \<notin> set cs \<longrightarrow> mem h' d = mem h1 d"
    and mi: "\<forall>d\<in>set cs. mem h' d = (mem h1 d)\<lparr>Send :=
            (if length (buf (Send (mem h1 d))) < cap (Send (mem h1 d))
             then (Send (mem h1 d))\<lparr>buf := buf (Send (mem h1 d)) @ [m]\<rparr>
             else (Send (mem h1 d))\<lparr>closed := True\<rparr>)\<rparr>"
    and c': "clients h' = filter (\<lambda>d. \<not> (d \<in> set cs \<and> \<not> length (buf (Send (mem h1 d))) < cap (Send (mem h1 d)))) (clients h1)"
    by blast
  have same: "\<And>d. d \<in> set cs \<Longrightarrow> mem h1 d = mem h d" using m1 cn by auto
  have cl: "clients h' = filter (\<lambda>d. \<not> (d \<in> set (c # cs) \<and> \<not> length (buf (Send (mem h d))) < cap (Send (mem h d)))) (clients h)"
    unfolding c' c1 filter_filter
    by (rule filter_cong) (use same in auto)
  show ?case
    apply (rule exI[of _ h'])
    using h1 h' r' r1 f' f1 mo mi m1 mc cn same cl
    by (simp (no_asm_simp))
qed

lemma broadcasts_of_append: "broadcasts_of t (ks @ ls) = broadcasts_of t ks @ broadcasts_of t ls"
  by (simp add: broadcasts_of_def)

lemma frame_cmds_shape:
  "frame_cmds c uid f = [] \<or> frame_cmds c uid f = [Pong c]
   \<or> (\<exists>r. frame_cmds c uid f = [Join c r])
   \<or> (\<exists>x v. frame_cmds c uid f = [Broadcast (typing_event x uid v)])
   \<or> (\<exists>x. frame_cmds c uid f = [Broadcast (read_event x uid)])"
  by (simp add: frame_cmds_def split: option.splits json.splits) blast

lemma frame_no_online: "broadcasts_of ''user_online'' (frame_cmds c uid f) = []"
  using frame_cmds_shape[of c uid f]
  by (auto simp: broadcasts_of_def typing_event_def read_event_def)

lemma readLoop_no_online: "broadcasts_of ''user_online'' (readLoop c uid rs) = []"
proof (induction c uid rs rule: readLoop.induct)
  case (2 c uid rs)
  show ?case by (simp add: broadcasts_of_def presence_def)
qed (simp_all add: broadcasts_of_append frame_no_online, simp add: broadcasts_of_def)

lemma readPump_online: "broadcasts_of ''user_online'' (readPump c uid rs) = [presence ''user_online'' uid]"
  using readLoop_no_online[of c uid rs]
  by (simp add: readPump_def broadcasts_of_def presence_def)

lemma HandleConnection_inv: "hub_inv h \<Longrightarrow> hub_inv (HandleConnection b a u h)"
  by (simp add: HandleConnection_def accept_inv JoinRoom_inv)

lemma HandleConnection_fields:
  "fresh h \<in> set (clients (HandleConnection True a u h))"
  "UserID (mem (HandleConnection True a u h) (fresh h)) = u"
  "Send (mem (HandleConnection True a u h) (fresh h)) = make_chan 256"
  "\<exists>cs. rooms (HandleConnection True a u h) (''user:'' @ u) = Some cs \<and> fresh h \<in> set cs"
  "''user:'' @ u \<in> set (Rooms (mem (HandleConnection True a u h) (fresh h)))"
  by (simp_all add: HandleConnection_def JoinRoom_def accept_def register_def)

lemma broadcast_all:
  assumes "hub_inv h" "Room m = []"
  shows "\<exists>h'. broadcastMessage m h = Inr h'
     \<and> (\<forall>d\<in>set (clients h). length (buf (Send (mem h d))) < cap (Send (mem h d)) \<longrightarrow>
          buf (Send (mem h' d)) = buf (Send (mem h d)) @ [m])"
proof -
  have "distinct (clients h)" "\<forall>d\<in>set (clients h). \<not> closed (Send (mem h d))"
    using assms(1) by (auto simp: hub_inv_def)
  from fanout_open[OF this, of m] obtain h' where "fanout m (clients h) h = Inr h'"
    and "\<forall>d\<in>set (clients h). mem h' d = (mem h d)\<lparr>Send :=
            (if length (buf (Send (mem h d))) < cap (Send (mem h d))
             then (Send (mem h d))\<lparr>buf := buf (Send (mem h d)) @ [m]\<rparr>
             else (Send (mem h d))\<lparr>closed := True\<rparr>)\<rparr>"
    by blast
  then show ?thesis using assms(2) by (auto simp: broadcastMessage_def)
qed

text \<open>
  Claim C7 says the \<open>user_online\<close> event of a new connection goes to all other connections
  and not to the new connection itself. Counterexample: the only connection of the hub
  finds its own \<open>user_online\<close> event in its queue.
\<close>

theorem C7_new_connection_hears_itself:
  "queued 0 (run (readPump 0 ''u1'' []) one_client) = Some [presence ''user_online'' ''u1'']"
  by (simp add: readPump_def exec_def broadcastMessage_def presence_def one_client_fields
        deliver_room make_chan_def queued_def set_Send_def)

text \<open>
  Claim C7 as amended: \<^verbatim>\<open>HandleConnection\<close> puts the new connection into the client set and
  into the room \<open>user:<id>\<close> of its user; its reader broadcasts \<open>user_online\<close> with that user's
  id and no target room exactly once; the fan-out of that event queues it for every
  registered connection that has a free slot, the new connection itself included.
\<close>

theorem C7_register_joins_and_announces:
  assumes "hub_inv h"
  shows "fresh h \<in> set (clients (HandleConnection True remoteAddr uid h))
    \<and> (\<exists>cs. rooms (HandleConnection True remoteAddr uid h) (''user:'' @ uid) = Some cs
             \<and> fresh h \<in> set cs)
    \<and> ''user:'' @ uid \<in> set (Rooms (mem (HandleConnection True remoteAddr uid h) (fresh h)))
    \<and> broadcasts_of ''user_online'' (readPump (fresh h) uid rs) = [presence ''user_online'' uid]
    \<and> Room (presence ''user_online'' uid) = []
    \<and> Payload (presence ''user_online'' uid) = JObj [(''user_id'', JStr uid)]
    \<and> (\<exists>h'. broadcastMessage (presence ''user_online'' uid)
                (HandleConnection True remoteAddr uid h) = Inr h'
           \<and> (\<forall>d\<in>set (clients (HandleConnection True remoteAddr uid h)).
                 length (buf (Send (mem (HandleConnection True remoteAddr uid h) d)))
                   < cap (Send (mem (HandleConnection True remoteAddr uid h) d)) \<longrightarrow>
                 buf (Send (mem h' d))
                   = buf (Send (mem (HandleConnection True remoteAddr uid h) d))
                     @ [presence ''user_online'' uid])
           \<and> buf (Send (mem h' (fresh h))) = [presence ''user_online'' uid])"
proof -
  let ?h1 = "HandleConnection True remoteAddr uid h"
  let ?on = "presence ''user_online'' uid"
  have r: "Room ?on = []" by (simp add: presence_def)
  from broadcast_all[OF HandleConnection_inv[OF assms] r] obtain h' where
    b: "broadcastMessage ?on ?h1 = Inr h'"
    and d: "\<forall>d\<in>set (clients ?h1). length (buf (Send (mem ?h1 d))) < cap (Send (mem ?h1 d)) \<longrightarrow>
          buf (Send (mem h' d)) = buf (Send (mem ?h1 d)) @ [?on]"
    by blast
  have "buf (Send (mem h' (fresh h))) = [?on]"
    using d HandleConnection_fields(1)[where h=h and a=remoteAddr and u=uid]
    by (simp add: HandleConnection_fields(3) make_chan_def)
  with b d show ?thesis
    using HandleConnection_fields[where h=h and a=remoteAddr and u=uid] readPump_online r
    by (simp add: presence_def)
qed

lemma one_client_inv: "hub_inv one_client"
  unfolding one_client_def by (rule HandleConnection_inv[OF NewHub_inv])

lemma one_client_fresh: "fresh one_client = 1"
  by (simp add: one_client_def HandleConnection_def JoinRoom_def accept_def register_def NewHub_def)

theorem C7_register_joins_and_announces_witness:
  "hub_inv one_client \<and> 1 \<in> set (clients two_clients)
   \<and> broadcasts_of ''user_online'' (readPump 1 ''u2'' [ReadError])
       = [presence ''user_online'' ''u2'']
   \<and> (\<exists>h'. broadcastMessage (presence ''user_online'' ''u2'') two_clients = Inr h'
         \<and> buf (Send (mem h' 1)) = [presence ''user_online'' ''u2''])"
  using C7_register_joins_and_announces[OF one_client_inv, of "''10.0.0.2:5000''" "''u2''" "[ReadError]"]
  by (simp add: one_client_inv one_client_fresh two_clients_def) blast

lemma two_clients_fields:
  "clients two_clients = [1, 0]" "rooms two_clients ''user:u1'' = Some [0]"
  "rooms two_clients ''user:u2'' = Some [1]" "rooms two_clients ''conv:c1'' = None"
  "rooms two_clients ''conversation:c1'' = None"
  "Send (mem two_clients 0) = make_chan 256" "Send (mem two_clients (Suc 0)) = make_chan 256"
  by (simp_all add: two_clients_def one_client_def HandleConnection_def JoinRoom_def accept_def
        register_def NewHub_def)

text \<open>
  Claim C8 says that every typing frame is re-broadcast to the room named
  \<open>conversation:<id>\<close>. Counterexample: connection 1 has joined \<open>conversation:c1\<close>,
  connection 0 sends a typing frame for conversation \<open>c1\<close>, and nothing is queued for
  connection 1; and a typing frame whose conversation id is the empty string is not
  forwarded at all.
\<close>

theorem C8_room_is_not_conversation_prefix:
  "members ''conversation:c1''
     (run (frame_cmds 1 ''u2'' (Some join_conversation_c1) @ frame_cmds 0 ''u1'' (Some typing_c1))
        two_clients) = Some [1]
   \<and> queued 1
     (run (frame_cmds 1 ''u2'' (Some join_conversation_c1) @ frame_cmds 0 ''u1'' (Some typing_c1))
        two_clients) = Some []
   \<and> frame_cmds 0 ''u1''
       (Some \<lparr>Type = ''typing'', Room = [],
              Payload = JObj [(''conversation_id'', JStr []), (''is_typing'', JBool True)]\<rparr>) = []"
  by (simp add: frame_cmds_def join_conversation_c1_def typing_c1_def conversation_id_def
        member_or_nil_def typing_event_def exec_def broadcastMessage_def JoinRoom_def
        two_clients_fields members_def queued_def make_chan_def)

lemma conversation_id_Some:
  "map_of payload ''conversation_id'' = Some (JStr x) \<Longrightarrow> conversation_id payload = x"
  by (simp add: conversation_id_def)

text \<open>
  Claim C8 as amended: a typing frame whose payload is an object with a non-empty string
  \<open>conversation_id\<close> and an \<open>is_typing\<close> member is forwarded as one typing event, carrying
  that conversation id, the sender's user id and the flag, to the room \<open>conv:<id>\<close>; the
  fan-out reaches every member of that room whose queue is open (queued where there is a
  free slot, dropped otherwise) and does not leave the sender out.
\<close>

theorem C8_typing_forwarded_to_conv_room:
  assumes "Type msg = ''typing''" and "Payload msg = JObj payload"
    and "map_of payload ''conversation_id'' = Some (JStr convID)" and "convID \<noteq> []"
    and "map_of payload ''is_typing'' = Some flag"
    and "rooms h (''conv:'' @ convID) = Some cs" and "distinct cs"
    and "\<forall>d\<in>set cs. \<not> closed (Send (mem h d))"
  shows "frame_cmds c uid (Some msg) = [Broadcast (typing_event convID uid flag)]
    \<and> Room (typing_event convID uid flag) = ''conv:'' @ convID
    \<and> Payload (typing_event convID uid flag)
        = JObj [(''conversation_id'', JStr convID), (''user_id'', JStr uid), (''is_typing'', flag)]
    \<and> (\<exists>h'. run (frame_cmds c uid (Some msg)) h = Inr h'
          \<and> (\<forall>d\<in>set cs. Send (mem h' d) =
                (if length (buf (Send (mem h d))) < cap (Send (mem h d))
                 then (Send (mem h d))\<lparr>buf := buf (Send (mem h d)) @ [typing_event convID uid flag]\<rparr>
                 else (Send (mem h d))\<lparr>closed := True\<rparr>))
          \<and> (c \<in> set cs \<and> length (buf (Send (mem h c))) < cap (Send (mem h c)) \<longrightarrow>
                buf (Send (mem h' c)) = buf (Send (mem h c)) @ [typing_event convID uid flag]))"
proof -
  let ?ev = "typing_event convID uid flag"
  have fc: "frame_cmds c uid (Some msg) = [Broadcast ?ev]"
    using assms(1-5) by (simp add: frame_cmds_def conversation_id_Some member_or_nil_def)
  have room: "Room ?ev = ''conv:'' @ convID" by (simp add: typing_event_def)
  from fanout_open[OF assms(7,8), of ?ev] obtain h' where
    f: "fanout ?ev cs h = Inr h'"
    and m: "\<forall>d\<in>set cs. mem h' d = (mem h d)\<lparr>Send :=
            (if length (buf (Send (mem h d))) < cap (Send (mem h d))
             then (Send (mem h d))\<lparr>buf := buf (Send (mem h d)) @ [?ev]\<rparr>
             else (Send (mem h d))\<lparr>closed := True\<rparr>)\<rparr>"
    by blast
  have "run [Broadcast ?ev] h = Inr h'"
    using f assms(6) by (simp add: exec_def broadcastMessage_def room)
  with m fc room show ?thesis
    by (simp add: typing_event_def)
qed

lemma in_conv_c1_fields:
  "rooms in_conv_c1 ''conv:c1'' = Some [1, 0]"
  "Send (mem in_conv_c1 0) = make_chan 256" "Send (mem in_conv_c1 (Suc 0)) = make_chan 256"
  by (simp_all add: in_conv_c1_def JoinRoom_def two_clients_fields)

theorem C8_typing_forwarded_witness:
  "frame_cmds 0 ''u1'' (Some typing_c1) = [Broadcast (typing_event ''c1'' ''u1'' (JBool True))]
   \<and> queued 0 (run (frame_cmds 0 ''u1'' (Some typing_c1)) in_conv_c1)
       = Some [typing_event ''c1'' ''u1'' (JBool True)]
   \<and> queued 1 (run (frame_cmds 0 ''u1'' (Some typing_c1)) in_conv_c1)
       = Some [typing_event ''c1'' ''u1'' (JBool True)]"
proof -
  have t: "Type typing_c1 = ''typing''"
    and p: "Payload typing_c1 = JObj [(''conversation_id'', JStr ''c1''), (''is_typing'', JBool True)]"
    by (simp_all add: typing_c1_def)
  have i: "map_of [(''conversation_id'', JStr ''c1''), (''is_typing'', JBool True)]
             ''conversation_id'' = Some (JStr ''c1'')"
    and n: "''c1'' \<noteq> []"
    and f: "map_of [(''conversation_id'', JStr ''c1''), (''is_typing'', JBool True)]
             ''is_typing'' = Some (JBool True)"
    by simp_all
  have r: "rooms in_conv_c1 (''conv:'' @ ''c1'') = Some [1, 0]" and d: "distinct [1, 0::nat]"
    and o: "\<forall>d\<in>set [1, 0]. \<not> closed (Send (mem in_conv_c1 d))"
    by (simp_all add: in_conv_c1_fields make_chan_def)
  from C8_typing_forwarded_to_conv_room[OF t p i n f r d o, where c = 0 and uid = "''u1''"]
  obtain h' where "frame_cmds 0 ''u1'' (Some typing_c1)
        = [Broadcast (typing_event ''c1'' ''u1'' (JBool True))]"
    and "run (frame_cmds 0 ''u1'' (Some typing_c1)) in_conv_c1 = Inr h'"
    and "\<forall>d\<in>set [1, 0]. Send (mem h' d) =
                (if length (buf (Send (mem in_conv_c1 d))) < cap (Send (mem in_conv_c1 d))
                 then (Send (mem in_conv_c1 d))\<lparr>buf := buf (Send (mem in_conv_c1 d))
                        @ [typing_event ''c1'' ''u1'' (JBool True)]\<rparr>
                 else (Send (mem in_conv_c1 d))\<lparr>closed := True\<rparr>)"
    by blast
  then show ?thesis
    by (simp add: queued_def in_conv_c1_fields make_chan_def)
qed



section \<open>Properties of call signalling\<close>

lemma round_even_half: "\<bar>of_int (round_even x) - x\<bar> \<le> 1 / 2"
  unfolding round_even_def by (auto simp: abs_if) linarith+

lemma round_even_nearest: "\<bar>of_int (round_even x) - x\<bar> \<le> \<bar>of_int k - x\<bar>"
proof (cases "k = round_even x")
  case True
  then show ?thesis by simp
next
  case False
  then have "1 \<le> \<bar>k - round_even x\<bar>" by linarith
  then have "(1::rat) \<le> \<bar>of_int k - of_int (round_even x)\<bar>"
    by (metis of_int_1 of_int_abs of_int_diff of_int_le_iff)
  with round_even_half[of x] show ?thesis by linarith
qed

lemma representable_int: "\<bar>k\<bar> < 2 ^ 53 \<Longrightarrow> representable (of_int k)"
  unfolding representable_def by (rule exI[of _ k], rule exI[of _ 0], rule exI[of _ 0]) simp

lemma representable_frac: "\<bar>k\<bar> < 2 ^ 53 \<Longrightarrow> representable (of_int k / 2 ^ b)"
  unfolding representable_def by (rule exI[of _ k], rule exI[of _ 0], rule exI[of _ b]) simp

lemma representable_double: "representable r \<Longrightarrow> representable (2 * r)"
  unfolding representable_def
proof (elim exE conjE)
  fix m :: int and a b :: nat
  assume "\<bar>m\<bar> < 2 ^ 53" "r = of_int m * 2 ^ a / 2 ^ b"
  then have "\<bar>m\<bar> < 2 ^ 53 \<and> 2 * r = of_int m * 2 ^ Suc a / 2 ^ b" by simp
  then show "\<exists>m a b. \<bar>m\<bar> < 2 ^ 53 \<and> 2 * r = of_int m * 2 ^ a / 2 ^ b" by blast
qed

lemma representable_half: "representable r \<Longrightarrow> representable (r / 2)"
  unfolding representable_def
proof (elim exE conjE)
  fix m :: int and a b :: nat
  assume "\<bar>m\<bar> < 2 ^ 53" "r = of_int m * 2 ^ a / 2 ^ b"
  then have "\<bar>m\<bar> < 2 ^ 53 \<and> r / 2 = of_int m * 2 ^ a / 2 ^ Suc b" by simp
  then show "\<exists>m a b. \<bar>m\<bar> < 2 ^ 53 \<and> r / 2 = of_int m * 2 ^ a / 2 ^ b" by blast
qed

lemma representable_cases:
  assumes "representable r"
  shows "(\<exists>k. r = of_int k) \<or> \<bar>r\<bar> < 2 ^ 52"
proof -
  from assms obtain m :: int and a b :: nat
    where m: "\<bar>m\<bar> < 2 ^ 53" and r: "r = of_int m * 2 ^ a / 2 ^ b"
    unfolding representable_def by blast
  show ?thesis
  proof (cases "b \<le> a")
    case True
    then have e: "(2::rat) ^ a / 2 ^ b = 2 ^ (a - b)" by (simp add: power_diff)
    have "r = of_int m * (2 ^ a / 2 ^ b)" using r by simp
    then have "r = of_int (m * 2 ^ (a - b))" unfolding e by simp
    then show ?thesis by blast
  next
    case False
    then obtain c where c: "b = a + Suc c" by (metis add_Suc_right less_imp_Suc_add not_le)
    have "r = of_int m / 2 ^ Suc c" using r c by (simp add: power_add)
    then have "\<bar>r\<bar> = \<bar>of_int m\<bar> / 2 ^ Suc c" by (simp add: abs_divide)
    also have "\<dots> \<le> \<bar>of_int m\<bar> / 2"
    proof -
      have "(2::rat) \<le> 2 ^ Suc c" by simp
      then show ?thesis by (intro divide_left_mono) simp_all
    qed
    also have "\<dots> < 2 ^ 52"
    proof -
      have "\<bar>(of_int m :: rat)\<bar> < 2 ^ 53" using m by (metis of_int_abs of_int_less_numeral_power_cancel_iff)
      then show ?thesis by simp
    qed
    finally show ?thesis by blast
  qed
qed

lemma nearest_base:
  assumes lo: "2 ^ 52 \<le> \<bar>x\<bar>" and hi: "\<bar>x\<bar> < 2 ^ 53"
  shows "nearest (of_int (round_even x)) x"
  unfolding nearest_def
proof (intro conjI allI impI)
  let ?y = "round_even x"
  have h: "\<bar>of_int ?y - x\<bar> \<le> 1 / 2" by (rule round_even_half)
  have "\<bar>(of_int ?y :: rat)\<bar> < 2 ^ 53 + 1" using h hi by linarith
  then have "\<bar>?y\<bar> < 2 ^ 53 + 1"
    by (metis (mono_tags, opaque_lifting) of_int_abs of_int_less_iff of_int_add of_int_1
        of_int_numeral of_int_power)
  then consider "\<bar>?y\<bar> < 2 ^ 53" | "?y = 2 ^ 53" | "?y = - (2 ^ 53)" by linarith
  then show "representable (of_int ?y)"
  proof cases
    case 1
    then show ?thesis by (rule representable_int)
  next
    case 2
    have "representable (2 * of_int (2 ^ 52))"
      by (rule representable_double, rule representable_int) simp
    then show ?thesis using 2 by simp
  next
    case 3
    have "representable (2 * of_int (- (2 ^ 52)))"
      by (rule representable_double, rule representable_int) simp
    then show ?thesis using 3 by simp
  qed
next
  fix r
  assume "representable r"
  from representable_cases[OF this] show "\<bar>of_int (round_even x) - x\<bar> \<le> \<bar>r - x\<bar>"
  proof
    assume "\<exists>k. r = of_int k"
    then show ?thesis using round_even_nearest by blast
  next
    assume small: "\<bar>r\<bar> < 2 ^ 52"
    show ?thesis
    proof (cases "0 \<le> x")
      case True
      have "\<bar>of_int (round_even x) - x\<bar> \<le> \<bar>of_int (2 ^ 52) - x\<bar>" by (rule round_even_nearest)
      also have "\<dots> \<le> \<bar>r - x\<bar>" using small lo True by simp
      finally show ?thesis .
    next
      case False
      have "\<bar>of_int (round_even x) - x\<bar> \<le> \<bar>of_int (- (2 ^ 52)) - x\<bar>" by (rule round_even_nearest)
      also have "\<dots> \<le> \<bar>r - x\<bar>" using small lo False by simp
      finally show ?thesis .
    qed
  qed
qed

lemma nearest_half: "nearest y (2 * x) \<Longrightarrow> nearest (y / 2) x"
  unfolding nearest_def
proof (intro conjI allI impI)
  assume a: "representable y \<and> (\<forall>r. representable r \<longrightarrow> \<bar>y - 2 * x\<bar> \<le> \<bar>r - 2 * x\<bar>)"
  then show "representable (y / 2)" by (simp add: representable_half)
  fix r assume "representable r"
  then have "representable (2 * r)" by (rule representable_double)
  with a have "\<bar>y - 2 * x\<bar> \<le> \<bar>2 * r - 2 * x\<bar>" by blast
  then show "\<bar>y / 2 - x\<bar> \<le> \<bar>r - x\<bar>" by linarith
qed

lemma nearest_double: "nearest y (x / 2) \<Longrightarrow> nearest (2 * y) x"
  unfolding nearest_def
proof (intro conjI allI impI)
  assume a: "representable y \<and> (\<forall>r. representable r \<longrightarrow> \<bar>y - x / 2\<bar> \<le> \<bar>r - x / 2\<bar>)"
  then show "representable (2 * y)" by (simp add: representable_double)
  fix r assume "representable r"
  then have "representable (r / 2)" by (rule representable_half)
  with a have "\<bar>y - x / 2\<bar> \<le> \<bar>r / 2 - x / 2\<bar>" by blast
  then show "\<bar>2 * y - x\<bar> \<le> \<bar>r - x\<bar>" by linarith
qed

lemma round_f64_nearest:
  "2 ^ 52 \<le> \<bar>x\<bar> * 2 ^ n \<Longrightarrow> \<bar>x\<bar> < 2 ^ 53 * 2 ^ n \<Longrightarrow> nearest (round_f64 n x) x"
proof (induction n arbitrary: x)
  case 0
  then show ?case by (simp add: nearest_base)
next
  case (Suc n)
  consider "\<bar>x\<bar> < 2 ^ 52" | "2 ^ 53 \<le> \<bar>x\<bar>" | "2 ^ 52 \<le> \<bar>x\<bar>" "\<bar>x\<bar> < 2 ^ 53" by linarith
  then show ?case
  proof cases
    case 1
    have "(1::rat) \<le> 2 ^ n" by simp
    then have "(2::rat) ^ 53 * 1 \<le> 2 ^ 53 * 2 ^ n" by (intro mult_left_mono) simp_all
    moreover have "\<bar>2 * x\<bar> < 2 ^ 53" using 1 by (simp add: abs_mult)
    ultimately have "\<bar>2 * x\<bar> < 2 ^ 53 * 2 ^ n" by linarith
    moreover have "2 ^ 52 \<le> \<bar>2 * x\<bar> * 2 ^ n" using Suc.prems(1) by (simp add: abs_mult)
    ultimately have "nearest (round_f64 n (2 * x)) (2 * x)" by (intro Suc.IH)
    then show ?thesis using 1 by (simp add: nearest_half)
  next
    case 2
    have "(1::rat) \<le> 2 ^ n" by simp
    then have "(2::rat) ^ 52 * 1 \<le> \<bar>x / 2\<bar> * 2 ^ n"
      using 2 by (intro mult_mono) simp_all
    moreover have "\<bar>x / 2\<bar> < 2 ^ 53 * 2 ^ n" using Suc.prems(2) by simp
    ultimately have "nearest (round_f64 n (x / 2)) (x / 2)" by (intro Suc.IH) simp_all
    then show ?thesis using 2 by (simp add: nearest_double)
  next
    case 3
    then show ?thesis by (simp add: nearest_base)
  qed
qed

lemma round_f64_zero: "round_f64 n 0 = 0"
  by (induction n) (simp_all add: round_even_def)

lemma float64_zero: "float64 0 = 0"
  by (simp add: float64_def round_f64_zero)

lemma float64_nearest:
  assumes "1 / 2 ^ 30 \<le> \<bar>x\<bar>" and "\<bar>x\<bar> < 2 ^ 53"
  shows "nearest (float64 x) x"
  unfolding float64_def
proof (rule round_f64_nearest)
  have "(2::rat) ^ 52 \<le> 1 / 2 ^ 30 * 2 ^ 1100" by simp
  also have "\<dots> \<le> \<bar>x\<bar> * 2 ^ 1100" using assms(1) by (intro mult_right_mono) simp_all
  finally show "2 ^ 52 \<le> \<bar>x\<bar> * 2 ^ 1100" .
  have "(2::rat) ^ 53 * 1 \<le> 2 ^ 53 * 2 ^ 1100" by (intro mult_left_mono) simp_all
  with assms(2) show "\<bar>x\<bar> < 2 ^ 53 * 2 ^ 1100" by simp
qed

lemma nearestD: "nearest y x \<Longrightarrow> representable r \<Longrightarrow> \<bar>y - x\<bar> \<le> \<bar>r - x\<bar>"
  by (simp add: nearest_def)

lemma fraction_bounds:
  assumes "0 \<le> n" and "n < 1000000000"
  shows "float64 (of_int n / 1000000000) = 0
    \<or> (1 / 2 ^ 30 \<le> float64 (of_int n / 1000000000)
        \<and> float64 (of_int n / 1000000000) \<le> 1 - 1 / 2 ^ 30 - 1 / 2 ^ 53)"
proof (cases "n = 0")
  case True
  then show ?thesis by (simp add: float64_zero)
next
  case False
  let ?q = "of_int n / 1000000000 :: rat"
  have n1: "1 \<le> n" and n2: "n \<le> 999999999" using assms False by simp_all
  have "(1::rat) \<le> of_int n" using n1 by simp
  then have lo: "1 / 2 ^ 30 \<le> ?q" by simp
  have "(of_int n :: rat) \<le> 999999999" using n2 by simp
  then have hi: "?q \<le> 1 - 1 / 2 ^ 30 - 1 / 2 ^ 53" by simp
  have near: "nearest (float64 ?q) ?q"
    using lo hi by (intro float64_nearest) simp_all
  have r1: "representable (1 / 2 ^ 30)"
    using representable_frac[of 1 30] by simp
  have r2: "representable (1 - 1 / 2 ^ 30 - 1 / 2 ^ 53)"
    using representable_frac[of "2 ^ 53 - 2 ^ 23 - 1" 53] by simp
  from nearestD[OF near r1] lo have "1 / 2 ^ 30 \<le> float64 ?q" by linarith
  moreover from nearestD[OF near r2] hi have "float64 ?q \<le> 1 - 1 / 2 ^ 30 - 1 / 2 ^ 53" by linarith
  ultimately show ?thesis by blast
qed

lemma sum_lower:
  assumes s: "0 \<le> s" "s < 2 ^ 53 - 1"
    and y: "y = 0 \<or> (1 / 2 ^ 30 \<le> y \<and> y \<le> 1 - 1 / 2 ^ 30 - 1 / 2 ^ 53)"
  shows "of_int s \<le> float64 (of_int s + y)"
proof (cases "of_int s + y = 0")
  case True
  have y0: "0 \<le> y" using y by auto
  have "(of_int s :: rat) \<le> 0" using True y0 by linarith
  then show ?thesis using True by (simp add: float64_zero)
next
  case False
  let ?x = "of_int s + y :: rat"
  have y0: "0 \<le> y" "y < 1" using y by auto
  have yl: "y = 0 \<or> 1 / 1073741824 \<le> y" using y by auto
  have s0: "(0::rat) \<le> of_int s" using s(1) by simp
  have "s = 0 \<or> 1 \<le> s" using s(1) by linarith
  then have sc: "(of_int s :: rat) = 0 \<or> (1::rat) \<le> of_int s" by auto
  have "1 / 1073741824 \<le> \<bar>?x\<bar>" using sc yl False y0 by auto
  then have lo: "1 / 2 ^ 30 \<le> \<bar>?x\<bar>" by simp
  have "s \<le> 9007199254740990" using s(2) by simp
  then have "(of_int s :: rat) \<le> 9007199254740990" by simp
  then have "\<bar>?x\<bar> < 9007199254740992" using y0 s0 by simp
  then have hi: "\<bar>?x\<bar> < 2 ^ 53" by simp
  have near: "nearest (float64 ?x) ?x" using lo hi by (rule float64_nearest)
  have "representable (of_int s)" using s by (intro representable_int) simp
  from nearestD[OF near this] y0 show ?thesis by linarith
qed

lemma sum_upper:
  assumes s: "0 \<le> s" "s < 2 ^ 24"
    and y: "y = 0 \<or> (1 / 2 ^ 30 \<le> y \<and> y \<le> 1 - 1 / 2 ^ 30 - 1 / 2 ^ 53)"
  shows "float64 (of_int s + y) < of_int s + 1"
proof (cases "of_int s + y = 0")
  case True
  then show ?thesis using s(1) by (simp add: float64_zero)
next
  case False
  let ?x = "of_int s + y :: rat"
  have y0: "0 \<le> y" "y < 1 - 1 / 1073741824" using y by auto
  have yl: "y = 0 \<or> 1 / 1073741824 \<le> y" using y by auto
  have s0: "(0::rat) \<le> of_int s" using s(1) by simp
  have "s = 0 \<or> 1 \<le> s" using s(1) by linarith
  then have sc: "(of_int s :: rat) = 0 \<or> (1::rat) \<le> of_int s" by auto
  have "1 / 1073741824 \<le> \<bar>?x\<bar>" using sc yl False y0 by auto
  then have lo: "1 / 2 ^ 30 \<le> \<bar>?x\<bar>" by simp
  have "s \<le> 16777215" using s(2) by simp
  then have "(of_int s :: rat) \<le> 16777215" by simp
  then have "\<bar>?x\<bar> < 9007199254740992" using y0 s0 by simp
  then have hi: "\<bar>?x\<bar> < 2 ^ 53" by simp
  have near: "nearest (float64 ?x) ?x" using lo hi by (rule float64_nearest)
  let ?g = "of_int ((s + 1) * 2 ^ 29 - 1) / 2 ^ 29 :: rat"
  have "\<bar>(s + 1) * 2 ^ 29 - 1\<bar> < 2 ^ 53" using s by simp
  then have rg: "representable ?g" by (rule representable_frac)
  have g: "?g = of_int s + 1 - 1 / 536870912" by (simp add: field_simps)
  have "\<bar>float64 ?x - ?x\<bar> \<le> \<bar>?g - ?x\<bar>" by (rule nearestD[OF near rg])
  then have "\<bar>float64 ?x - ?x\<bar> \<le> \<bar>of_int s + 1 - 1 / 536870912 - ?x\<bar>" unfolding g .
  with y0 show ?thesis by linarith
qed

lemma tdiv_tmod_nonneg: "0 \<le> d \<Longrightarrow> tdiv d b = d div b \<and> tmod d b = d mod b"
  by (simp add: tdiv_def tmod_def)

lemma Seconds_nonneg_eq:
  "0 \<le> d \<Longrightarrow> Seconds d =
     float64 (of_int (d div 1000000000) + float64 (of_int (d mod 1000000000) / 1000000000))"
  by (simp add: Seconds_def tdiv_tmod_nonneg)

lemma Seconds_lower:
  assumes "0 \<le> d" and "d \<le> 9223372036854775807"
  shows "of_int (d div 1000000000) \<le> Seconds d"
proof -
  have s: "0 \<le> d div 1000000000" "d div 1000000000 < 2 ^ 53 - 1" using assms by simp_all
  have fb: "float64 (of_int (d mod 1000000000) / 1000000000) = 0
    \<or> (1 / 2 ^ 30 \<le> float64 (of_int (d mod 1000000000) / 1000000000)
        \<and> float64 (of_int (d mod 1000000000) / 1000000000) \<le> 1 - 1 / 2 ^ 30 - 1 / 2 ^ 53)"
    by (rule fraction_bounds) simp_all
  show ?thesis
    unfolding Seconds_nonneg_eq[OF assms(1)] by (rule sum_lower[OF s fb])
qed

lemma Seconds_upper:
  assumes "0 \<le> d" and "d < 16777216000000000"
  shows "Seconds d < of_int (d div 1000000000) + 1"
proof -
  have s: "0 \<le> d div 1000000000" "d div 1000000000 < 2 ^ 24" using assms by simp_all
  have fb: "float64 (of_int (d mod 1000000000) / 1000000000) = 0
    \<or> (1 / 2 ^ 30 \<le> float64 (of_int (d mod 1000000000) / 1000000000)
        \<and> float64 (of_int (d mod 1000000000) / 1000000000) \<le> 1 - 1 / 2 ^ 30 - 1 / 2 ^ 53)"
    by (rule fraction_bounds) simp_all
  show ?thesis
    unfolding Seconds_nonneg_eq[OF assms(1)] by (rule sum_upper[OF s fb])
qed


lemma whole_seconds_exact:
  assumes "0 \<le> d" and "d < 16777216000000000"
  shows "whole_seconds d = d div 1000000000"
proof -
  have lo: "of_int (d div 1000000000) \<le> Seconds d"
    using assms by (intro Seconds_lower) simp_all
  have hi: "Seconds d < of_int (d div 1000000000) + 1" using assms by (rule Seconds_upper)
  have "(0::rat) \<le> of_int (d div 1000000000)" using assms(1) by simp
  with lo have "0 \<le> Seconds d" by linarith
  moreover have "\<lfloor>Seconds d\<rfloor> = d div 1000000000" using lo hi by (simp add: floor_unique)
  ultimately show ?thesis by (simp add: whole_seconds_def to_int_def)
qed





lemma call_duration_None: "call_duration now None = 0"
  by (simp add: call_duration_def)


lemma call_duration_exact:
  "a \<le> now \<Longrightarrow> now - a < 16777216000000000 \<Longrightarrow>
   call_duration now (Some a) = (now - a) div 1000000000"
  by (simp add: call_duration_def Sub_def whole_seconds_exact)


lemma demo_param: "param_id demo_env s = s"
  by (simp add: param_id_def demo_env_def)

lemma demo_parse: "Parse demo_env s = Some s"
  by (simp add: demo_env_def)

lemma demo_token:
  "GenerateRTCToken demo_env (AgoraAppID demo_cfg) (AgoraAppCertificate demo_cfg) ch uid ex
     = Inr (''token:'' @ ch)"
  by (simp add: GenerateRTCToken_def demo_env_def demo_cfg_def)

lemma ringing_row:
  "calls ringing_call ''call-1'' = Some
     \<lparr>CallerID = ''alice'', CalleeID = ''bob'', OrderID = None, CallType = ''audio'',
      Status = ''ringing'', Duration = 0, ChannelID = Some (channel_name ''0a1b2c3d-0000'' (seconds 0)),
      StartedAt = seconds 0, AnsweredAt = None, EndedAt = None\<rparr>"
  by (simp add: ringing_call_def commit_def InitiateCall_def demo_parse demo_token)

lemma answered_row:
  "calls answered_call ''call-1'' = Some
     \<lparr>CallerID = ''alice'', CalleeID = ''bob'', OrderID = None, CallType = ''audio'',
      Status = ''answered'', Duration = 0, ChannelID = Some (channel_name ''0a1b2c3d-0000'' (seconds 0)),
      StartedAt = seconds 0, AnsweredAt = Some (seconds 5), EndedAt = None\<rparr>"
  by (simp add: answered_call_def commit_def AnswerCall_def First_call_def demo_param ringing_row
        demo_token)

lemma ended_row:
  "calls ended_call ''call-1'' = Some
     \<lparr>CallerID = ''alice'', CalleeID = ''bob'', OrderID = None, CallType = ''audio'',
      Status = ''ended'', Duration = 60, ChannelID = Some (channel_name ''0a1b2c3d-0000'' (seconds 0)),
      StartedAt = seconds 0, AnsweredAt = Some (seconds 5), EndedAt = Some (seconds 65)\<rparr>"
  by (simp add: ended_call_def commit_def EndCall_def First_call_def demo_param answered_row
        call_duration_exact seconds_def)

lemma declined_row:
  "calls declined_call ''call-1'' = Some
     \<lparr>CallerID = ''alice'', CalleeID = ''bob'', OrderID = None, CallType = ''audio'',
      Status = ''declined'', Duration = 0, ChannelID = Some (channel_name ''0a1b2c3d-0000'' (seconds 0)),
      StartedAt = seconds 0, AnsweredAt = None, EndedAt = Some (seconds 3)\<rparr>"
  by (simp add: declined_call_def commit_def RejectCall_def First_call_def demo_param ringing_row)

text \<open>
  Of the three actions on an existing call only \<^verbatim>\<open>AnswerCall\<close> looks at the status: on a call
  that is not ringing it has no effect.
\<close>

lemma AnswerCall_not_ringing:
  "Parse e idParam = Some callID \<Longrightarrow> calls db callID = Some callLog \<Longrightarrow>
   Status callLog \<noteq> ''ringing'' \<Longrightarrow>
   fst (AnswerCall e cfg db idParam userID now) = []"
  by (simp add: AnswerCall_def First_call_def param_id_def)

text \<open>
  Claim C2 says that reject succeeds only on a ringing call and fails, changing nothing, on
  an answered one. The code at the failing input: Bob has answered the call at second 5
  and sends reject at second 7. The handler answers 200, stores the status \<open>declined\<close> and
  the end time, and notifies Alice with \<open>call_rejected\<close>.
\<close>

theorem C2_reject_after_answer_succeeds:
  "row_state answered_call ''call-1'' = Some (''answered'', Some (seconds 5), None, 0)
   \<and> RejectCall demo_env answered_call ''call-1'' ''bob'' (seconds 7)
       = ([Updates ''call-1'' [status ''declined'', ended_at (seconds 7)],
           ToHub (BroadcastToUser ''alice'' ''call_rejected'' (JObj [(''call_id'', JStr ''call-1'')]))],
          200, SuccessResponse (JObj [(''message'', JStr ''Call rejected'')]))
   \<and> row_state (commit (RejectCall demo_env answered_call ''call-1'' ''bob'' (seconds 7))
         answered_call) ''call-1''
       = Some (''declined'', Some (seconds 5), Some (seconds 7), 0)"
  by (simp add: row_state_def answered_row RejectCall_def First_call_def demo_param commit_def)

text \<open>
  Claim C3 says that no action changes a call that is ended or declined. The code at the
  failing inputs: on the call ended at second 65 with duration 60, a second end at second
  100 stores a new end time and the duration 95, and a reject stores the status
  \<open>declined\<close>; on the call declined at second 3, an end is accepted with 200 and stores
  the status \<open>ended\<close>.
\<close>

theorem C3_ended_and_declined_calls_change:
  "row_state ended_call ''call-1'' = Some (''ended'', Some (seconds 5), Some (seconds 65), 60)
   \<and> row_state (commit (EndCall demo_env ended_call ''call-1'' ''bob'' (seconds 100)) ended_call)
        ''call-1'' = Some (''ended'', Some (seconds 5), Some (seconds 100), 95)
   \<and> row_state (commit (RejectCall demo_env ended_call ''call-1'' ''bob'' (seconds 100)) ended_call)
        ''call-1'' = Some (''declined'', Some (seconds 5), Some (seconds 100), 60)
   \<and> row_state declined_call ''call-1'' = Some (''declined'', None, Some (seconds 3), 0)
   \<and> fst (snd (EndCall demo_env declined_call ''call-1'' ''alice'' (seconds 9))) = 200
   \<and> row_state (commit (EndCall demo_env declined_call ''call-1'' ''alice'' (seconds 9)) declined_call)
        ''call-1'' = Some (''ended'', None, Some (seconds 9), 0)"
  by (simp add: row_state_def ended_row declined_row EndCall_def RejectCall_def First_call_def
        demo_param commit_def call_duration_exact call_duration_None seconds_def)






end
